theory Spec2Isabelle
  imports Main "HOL-Library.Sublist" "HOL-Library.Multiset"
begin

section \<open>Python strings and the string primitives the generator uses\<close>

text \<open>
  A Python \<open>str\<close> is modelled as a \<open>string\<close>: a list of characters, one \<open>char\<close> per
  code point. A \<open>char\<close> has 256 values, so the model covers text whose code points are
  below 256 (ASCII and Latin-1); on that range the character classes below are those of
  Python 3 (\<open>str.isspace\<close>, the \<open>\s\<close> and \<open>\w\<close> of \<open>re\<close> on \<open>str\<close> patterns,
  \<open>str.isdigit\<close>, \<open>str.lower\<close>).
\<close>

definition is_space :: "char \<Rightarrow> bool" where
  \<comment> \<open>\<open>str.isspace\<close> and \<open>\s\<close>: TAB, LF, VT, FF, CR, FS, GS, RS, US, space, NEL, NBSP\<close>
  "is_space c =
     (let n = (of_char c :: nat)
      in (9 \<le> n \<and> n \<le> 13) \<or> (28 \<le> n \<and> n \<le> 32) \<or> n = 133 \<or> n = 160)"

definition is_ascii_digit :: "char \<Rightarrow> bool" where
  "is_ascii_digit c = (let n = (of_char c :: nat) in 48 \<le> n \<and> n \<le> 57)"

definition is_digit :: "char \<Rightarrow> bool" where
  \<comment> \<open>\<open>str.isdigit\<close>: 0-9 and the superscript digits of Latin-1 (0xB2, 0xB3, 0xB9)\<close>
  "is_digit c =
     (let n = (of_char c :: nat) in is_ascii_digit c \<or> n = 178 \<or> n = 179 \<or> n = 185)"

definition is_lower_az :: "char \<Rightarrow> bool" where
  "is_lower_az c = (let n = (of_char c :: nat) in 97 \<le> n \<and> n \<le> 122)"

definition is_word :: "char \<Rightarrow> bool" where
  \<comment> \<open>\<open>\w\<close>: alphanumeric code points and the underscore\<close>
  "is_word c =
     (let n = (of_char c :: nat)
      in (48 \<le> n \<and> n \<le> 57) \<or> (65 \<le> n \<and> n \<le> 90) \<or> n = 95 \<or> (97 \<le> n \<and> n \<le> 122)
         \<or> n = 170 \<or> n = 178 \<or> n = 179 \<or> n = 181 \<or> n = 185 \<or> n = 186
         \<or> (188 \<le> n \<and> n \<le> 190) \<or> (192 \<le> n \<and> n \<le> 214) \<or> (216 \<le> n \<and> n \<le> 246)
         \<or> 248 \<le> n)"

definition lower_char :: "char \<Rightarrow> char" where
  "lower_char c =
     (let n = (of_char c :: nat)
      in if (65 \<le> n \<and> n \<le> 90) \<or> (192 \<le> n \<and> n \<le> 222 \<and> n \<noteq> 215)
         then char_of (n + 32) else c)"

definition lower :: "string \<Rightarrow> string" where
  "lower s = map lower_char s"

definition isdigit :: "string \<Rightarrow> bool" where
  \<comment> \<open>\<open>str.isdigit\<close> is false on the empty string\<close>
  "isdigit s = (s \<noteq> [] \<and> list_all is_digit s)"

definition strip :: "string \<Rightarrow> string" where
  "strip s = rev (dropWhile is_space (rev (dropWhile is_space s)))"

definition startswith :: "string \<Rightarrow> string \<Rightarrow> bool" where
  "startswith s p = prefix p s"

definition endswith :: "string \<Rightarrow> string \<Rightarrow> bool" where
  "endswith s p = suffix p s"

fun find_from :: "string \<Rightarrow> string \<Rightarrow> nat option" where
  \<comment> \<open>\<open>s.find(p)\<close>: the index of the first occurrence, \<open>None\<close> for Python's \<open>-1\<close>\<close>
  "find_from p [] = (if p = [] then Some 0 else None)"
| "find_from p (c # cs) =
     (if prefix p (c # cs) then Some 0 else map_option Suc (find_from p cs))"

function split_on :: "string \<Rightarrow> string \<Rightarrow> string \<Rightarrow> string list" where
  \<comment> \<open>\<open>s.split(sep)\<close> for a non-empty separator (Python raises on an empty one, and the
      generator only splits on a literal); the second argument is the piece read so far\<close>
  "split_on sep acc [] = [acc]"
| "split_on sep acc (c # cs) =
     (if prefix sep (c # cs) then acc # split_on sep [] (drop (length sep - 1) cs)
      else split_on sep (acc @ [c]) cs)"
  by pat_completeness auto
termination
  by (relation "measure (\<lambda>(sep, acc, s). length s)") (auto simp: less_Suc_eq_le)

fun join :: "string \<Rightarrow> string list \<Rightarrow> string" where
  "join sep [] = []"
| "join sep [x] = x"
| "join sep (x # y # ys) = x @ sep @ join sep (y # ys)"

function split_ws :: "string \<Rightarrow> string list" where
  \<comment> \<open>\<open>s.split()\<close>: the maximal runs of non-whitespace characters\<close>
  "split_ws s =
     (case dropWhile is_space s of
        [] \<Rightarrow> []
      | c # cs \<Rightarrow> takeWhile (\<lambda>x. \<not> is_space x) (c # cs)
                 # split_ws (dropWhile (\<lambda>x. \<not> is_space x) (c # cs)))"
  by pat_completeness auto
termination
proof (relation "measure length")
  show "wf (measure length)" by simp
next
  fix s :: string and c cs
  assume h: "dropWhile is_space s = c # cs"
  have c: "\<not> is_space c"
    using h hd_dropWhile [of is_space s] by force
  have "length (dropWhile (\<lambda>x. \<not> is_space x) (c # cs)) \<le> length cs"
    using c by (simp add: length_dropWhile_le)
  moreover have "length (c # cs) \<le> length s"
    using h length_dropWhile_le [of is_space s] by simp
  ultimately show "(dropWhile (\<lambda>x. \<not> is_space x) (c # cs), s) \<in> measure length"
    by simp
qed

section \<open>The markup cleaner \<open>clean_latex\<close>\<close>

definition strip_surrounding :: "string \<Rightarrow> string" where
  \<comment> \<open>\<open>re.sub(r'^[{](.+)[}]$', r'\1', text)\<close>: without DOTALL the dot does not match a
      newline, and \<open>$\<close> also matches just before a newline that ends the text\<close>
  "strip_surrounding text =
     (case text of
        [] \<Rightarrow> []
      | c # rest \<Rightarrow>
          if c = CHR ''{'' then
            (let nl = (rest \<noteq> [] \<and> last rest = CHR 0x0A);
                 core = (if nl then butlast rest else rest);
                 tail = (if nl then [CHR 0x0A] else [])
             in if core \<noteq> [] \<and> last core = CHR ''}'' \<and> butlast core \<noteq> []
                   \<and> CHR 0x0A \<notin> set (butlast core)
                then butlast core @ tail else text)
          else text)"

definition not_brace :: "char \<Rightarrow> bool" where
  "not_brace c = (c \<noteq> CHR ''{'' \<and> c \<noteq> CHR ''}'')"

function strip_inner :: "string \<Rightarrow> string" where
  \<comment> \<open>\<open>re.sub(r'\{([^{}]+)\}', r'\1', text)\<close>: every brace pair around a non-empty run of
      non-brace characters, left to right, loses its braces\<close>
  "strip_inner [] = []"
| "strip_inner (c # cs) =
     (if c = CHR ''{'' then
        (let run = takeWhile not_brace cs; rest = dropWhile not_brace cs
         in if run \<noteq> [] \<and> rest \<noteq> [] \<and> hd rest = CHR ''}''
            then run @ strip_inner (tl rest)
            else c # strip_inner cs)
      else c # strip_inner cs)"
  by pat_completeness auto
termination
proof (relation "measure length")
  show "wf (measure length)" by simp
next
  fix c :: char and cs run rest
  assume "rest = dropWhile not_brace cs"
  then have "length (tl rest) \<le> length cs"
    using length_dropWhile_le [of not_brace cs] by simp
  then show "(tl rest, c # cs) \<in> measure length" by simp
qed simp_all

lemma strip_surrounding_length:
  "strip_surrounding t = t \<or> length (strip_surrounding t) < length t"
  by (auto simp: strip_surrounding_def Let_def split: list.splits)

lemma strip_inner_length:
  "strip_inner t = t \<or> length (strip_inner t) < length t"
proof (induction t rule: strip_inner.induct)
  case 1
  then show ?case by simp
next
  case (2 c cs)
  show ?case
  proof (cases "c = CHR ''{'' \<and> takeWhile not_brace cs \<noteq> []
                \<and> dropWhile not_brace cs \<noteq> [] \<and> hd (dropWhile not_brace cs) = CHR ''}''")
    case True
    let ?rest = "dropWhile not_brace cs"
    have eq: "strip_inner (c # cs) = takeWhile not_brace cs @ strip_inner (tl ?rest)"
      using True by simp
    have ih: "strip_inner (tl ?rest) = tl ?rest \<or> length (strip_inner (tl ?rest)) < length (tl ?rest)"
      using "2.IH"(1) [OF _ refl refl] True by simp
    have "length (takeWhile not_brace cs) + length ?rest = length cs"
      by (metis length_append takeWhile_dropWhile_id)
    moreover have "length (tl ?rest) < length ?rest"
      using True by (cases ?rest) simp_all
    ultimately have "length (takeWhile not_brace cs) + length (tl ?rest) < length cs"
      by linarith
    with ih eq show ?thesis by auto
  next
    case False
    then have eq: "strip_inner (c # cs) = c # strip_inner cs"
      by (auto simp: Let_def)
    have "strip_inner cs = cs \<or> length (strip_inner cs) < length cs"
      using "2.IH"(2,3) False by (auto simp: Let_def)
    with eq show ?thesis by auto
  qed
qed

lemma strip_pass_length:
  "strip_inner (strip_surrounding t) \<noteq> t \<Longrightarrow>
   length (strip_inner (strip_surrounding t)) < length t"
  using strip_surrounding_length [of t] strip_inner_length [of "strip_surrounding t"]
  by auto

function clean_loop :: "string \<Rightarrow> string" where
  \<comment> \<open>the \<open>while '{' in text\<close> loop, left through \<open>break\<close> when a pass changes nothing\<close>
  "clean_loop text =
     (if CHR ''{'' \<in> set text then
        (let text' = strip_inner (strip_surrounding text)
         in if text' = text then text else clean_loop text')
      else text)"
  by pat_completeness auto
termination
  by (relation "measure length") (auto dest: strip_pass_length)

declare clean_loop.simps [simp del]

function collapse_ws :: "string \<Rightarrow> string" where
  \<comment> \<open>\<open>re.sub(r'\s+', ' ', text)\<close>\<close>
  "collapse_ws [] = []"
| "collapse_ws (c # cs) =
     (if is_space c then CHR '' '' # collapse_ws (dropWhile is_space cs)
      else c # collapse_ws cs)"
  by pat_completeness auto
termination
  by (relation "measure length") (auto simp: length_dropWhile_le less_Suc_eq_le)

definition clean_latex :: "string \<Rightarrow> string" where
  "clean_latex text =
     (if text = [] then text else strip (collapse_ws (clean_loop text)))"

section \<open>The record extractor \<open>parse_bibtex\<close>\<close>

type_synonym entry = "string \<rightharpoonup> string"

definition get :: "entry \<Rightarrow> string \<Rightarrow> string \<Rightarrow> string" where
  \<comment> \<open>\<open>pub.get(key, default)\<close>\<close>
  "get pub k d = (case pub k of Some v \<Rightarrow> v | None \<Rightarrow> d)"

definition slice_1_m1 :: "string \<Rightarrow> string" where
  \<comment> \<open>\<open>s[1:-1]\<close>, empty when \<open>s\<close> has fewer than two characters\<close>
  "slice_1_m1 s = butlast (tl s)"

definition parse_field_value :: "string \<Rightarrow> string" where
  "parse_field_value field_str0 =
     (let field_str = strip field_str0
      in if startswith field_str [CHR 0x22] \<and> endswith field_str [CHR 0x22]
         then slice_1_m1 field_str
         else if startswith field_str ''{'' \<and> endswith field_str ''}''
         then slice_1_m1 field_str
         else field_str)"

definition match_entry :: "string \<Rightarrow> (string \<times> string \<times> string \<times> string) option" where
  \<comment> \<open>a match of \<open>@(\w+)\{([^,]+),(.+?)\n\}\<close> (DOTALL) at the head of the text: the three
      groups and the text after the match. \<open>\w+\<close> and \<open>[^,]+\<close> are each followed by a
      character outside their class, so only their longest run can match; the lazy
      \<open>.+?\<close> takes one character and then runs to the first newline-brace pair\<close>
  "match_entry s =
     (case s of
        [] \<Rightarrow> None
      | c # r1 \<Rightarrow>
          if c \<noteq> CHR ''@'' then None
          else
            (let ty = takeWhile is_word r1; r2 = dropWhile is_word r1
             in if ty = [] then None
                else
                  (case r2 of
                     [] \<Rightarrow> None
                   | b # r3 \<Rightarrow>
                       if b \<noteq> CHR ''{'' then None
                       else
                         (let key = takeWhile (\<lambda>x. x \<noteq> CHR '','') r3;
                              r4 = dropWhile (\<lambda>x. x \<noteq> CHR '','') r3
                          in if key = [] then None
                             else
                               (case r4 of
                                  [] \<Rightarrow> None
                                | comma # r5 \<Rightarrow>
                                    (case r5 of
                                       [] \<Rightarrow> None
                                     | f # r6 \<Rightarrow>
                                         (case find_from [CHR 0x0A, CHR ''}''] r6 of
                                            None \<Rightarrow> None
                                          | Some n \<Rightarrow>
                                              Some (ty, key, f # take n r6,
                                                    drop (n + 2) r6))))))))"

lemma match_entry_rest:
  "match_entry s = Some (ty, key, fields, rest) \<Longrightarrow> length rest < length s"
proof -
  assume h: "match_entry s = Some (ty, key, fields, rest)"
  have d: "length (dropWhile P xs) \<le> length xs" for P and xs :: string
    by (rule length_dropWhile_le)
  from h have "\<exists>c r1 b r3 comma f r6 n.
      s = c # r1 \<and> dropWhile is_word r1 = b # r3
      \<and> dropWhile (\<lambda>x. x \<noteq> CHR '','') r3 = comma # f # r6 \<and> rest = drop (n + 2) r6"
    by (auto simp: match_entry_def Let_def split: list.splits if_splits option.splits)
  then obtain c r1 b r3 comma f r6 n where s: "s = c # r1"
    and r2: "dropWhile is_word r1 = b # r3"
    and r4: "dropWhile (\<lambda>x. x \<noteq> CHR '','') r3 = comma # f # r6"
    and rest: "rest = drop (n + 2) r6"
    by blast
  define r5 where "r5 = f # r6"
  have "length rest \<le> length r6" using rest by simp
  also have "\<dots> < length r5" using r5_def by simp
  also have "\<dots> < length (dropWhile (\<lambda>x. x \<noteq> CHR '','') r3)" using r4 r5_def by simp
  also have "\<dots> \<le> length r3" by (rule d)
  also have "\<dots> < length (dropWhile is_word r1)" using r2 by simp
  also have "\<dots> \<le> length r1" by (rule d)
  also have "\<dots> < length s" using s by simp
  finally show ?thesis .
qed

function findall_entries :: "string \<Rightarrow> (string \<times> string \<times> string) list" where
  \<comment> \<open>\<open>re.findall\<close>: the matches from left to right, each search resuming where the
      last match ended\<close>
  "findall_entries [] = []"
| "findall_entries (c # cs) =
     (case match_entry (c # cs) of
        Some (ty, key, fields, rest) \<Rightarrow> (ty, key, fields) # findall_entries rest
      | None \<Rightarrow> findall_entries cs)"
  by pat_completeness auto
termination
  by (relation "measure length") (auto dest: match_entry_rest)

definition match_assign :: "string \<Rightarrow> (string \<times> nat) option" where
  \<comment> \<open>a match of \<open>(\w+)\s*=\s*\<close> at the head of the text: group 1 and the length of
      the match. Word characters, whitespace and \<open>=\<close> are disjoint classes, so each
      starred part can only match its longest run\<close>
  "match_assign s =
     (let name = takeWhile is_word s; r1 = dropWhile is_space (dropWhile is_word s)
      in if name = [] then None
         else
           (case r1 of
              [] \<Rightarrow> None
            | e # r2 \<Rightarrow>
                if e = CHR ''='' then Some (name, length s - length (dropWhile is_space r2))
                else None))"

fun search_assign :: "string \<Rightarrow> (string \<times> nat) option" where
  \<comment> \<open>\<open>re.search\<close>: the leftmost match; the number is \<open>match.end()\<close>\<close>
  "search_assign [] = None"
| "search_assign (c # cs) =
     (case match_assign (c # cs) of
        Some r \<Rightarrow> Some r
      | None \<Rightarrow> map_option (\<lambda>(name, e). (name, Suc e)) (search_assign cs))"

fun brace_end :: "string \<Rightarrow> int \<Rightarrow> nat \<Rightarrow> nat option" where
  \<comment> \<open>the \<open>for i in range(value_start, len(fields))\<close> loop over the text from
      \<open>value_start\<close> on: \<open>Some (i + 1)\<close> where the counter returns to zero\<close>
  "brace_end [] brace_count i = None"
| "brace_end (c # cs) brace_count i =
     (if c = CHR ''{'' then brace_end cs (brace_count + 1) (i + 1)
      else if c = CHR ''}'' then
        (if brace_count - 1 = 0 then Some (i + 1)
         else brace_end cs (brace_count - 1) (i + 1))
      else brace_end cs brace_count (i + 1))"

definition value_end_of :: "string \<Rightarrow> nat \<Rightarrow> nat" where
  \<comment> \<open>\<open>value_end\<close> after the value extraction; a failed \<open>find\<close> is \<open>-1\<close>, and
      \<open>-1 + 1 = 0\<close>\<close>
  "value_end_of fields value_start =
     (if value_start < length fields then
        (if fields ! value_start = CHR ''{'' then
           (case brace_end (drop value_start fields) 0 value_start of
              Some e \<Rightarrow> e
            | None \<Rightarrow> value_start)
         else if fields ! value_start = CHR 0x22 then
           (case find_from [CHR 0x22] (drop (value_start + 1) fields) of
              Some n \<Rightarrow> value_start + 1 + n + 1
            | None \<Rightarrow> 0)
         else value_start)
      else value_start)"

definition field_value_of :: "string \<Rightarrow> nat \<Rightarrow> nat \<Rightarrow> string" where
  \<comment> \<open>the cleaned value of the slice \<open>fields[value_start:value_end]\<close>\<close>
  "field_value_of fields value_start value_end =
     clean_latex (strip (parse_field_value
       (take (value_end - value_start) (drop value_start fields))))"

definition scan_step :: "string \<Rightarrow> nat \<times> entry \<Rightarrow> (nat \<times> entry) option" where
  \<comment> \<open>one iteration of the \<open>while current_pos < len(fields)\<close> loop; \<open>None\<close> when the
      loop is left (condition false, or \<open>break\<close>)\<close>
  "scan_step fields st =
     (case st of (current_pos, entry) \<Rightarrow>
        if current_pos < length fields then
          (case search_assign (drop current_pos fields) of
             None \<Rightarrow> None
           | Some (name, match_end) \<Rightarrow>
               (let field_name = lower name;
                    value_start = current_pos + match_end;
                    value_end = value_end_of fields value_start
                in if value_end > value_start
                   then Some (value_end,
                              entry(field_name \<mapsto> field_value_of fields value_start value_end))
                   else Some (current_pos + 1, entry)))
        else None)"

lemma scan_step_progress:
  "scan_step fields (pos, e) = Some (pos', e') \<Longrightarrow> pos < pos'"
  by (auto simp: scan_step_def Let_def split: if_splits option.splits)

function parse_fields :: "string \<Rightarrow> nat \<Rightarrow> entry \<Rightarrow> entry" where
  "parse_fields fields current_pos entry =
     (case scan_step fields (current_pos, entry) of
        None \<Rightarrow> entry
      | Some (pos', entry') \<Rightarrow> parse_fields fields pos' entry')"
  by pat_completeness auto
termination
proof (relation "measure (\<lambda>(fields, pos, e). length fields - pos)")
  show "wf (measure (\<lambda>(fields, pos, e). length fields - pos))" by simp
next
  fix fields :: string and current_pos :: nat and entry :: entry and x2 pos' entry'
  assume h: "scan_step fields (current_pos, entry) = Some x2" "(pos', entry') = x2"
  then have "current_pos < pos'"
    using scan_step_progress [of fields current_pos entry pos' entry'] by simp
  moreover have "current_pos < length fields"
    using h by (auto simp: scan_step_def split: if_splits)
  ultimately show "((fields, pos', entry'), (fields, current_pos, entry))
      \<in> measure (\<lambda>(fields, pos, e). length fields - pos)"
    by simp
qed

declare parse_fields.simps [simp del]

definition parse_entry :: "string \<times> string \<times> string \<Rightarrow> entry" where
  "parse_entry m =
     (case m of (entry_type, key, fields) \<Rightarrow>
        parse_fields fields 0 [''type'' \<mapsto> entry_type, ''key'' \<mapsto> key])"

datatype error = ValueError

definition is_int_space :: "char \<Rightarrow> bool" where
  \<comment> \<open>the whitespace \<open>int()\<close> accepts around the digits\<close>
  "is_int_space c =
     (let n = (of_char c :: nat) in (9 \<le> n \<and> n \<le> 13) \<or> n = 32 \<or> n = 133 \<or> n = 160)"

definition digit_val :: "char \<Rightarrow> int" where
  "digit_val c = int (of_char c) - 48"

fun int_digits :: "string \<Rightarrow> int \<Rightarrow> int option" where
  \<comment> \<open>the digits after the first one; a single underscore may stand between two digits\<close>
  "int_digits [] acc = Some acc"
| "int_digits [c] acc =
     (if is_ascii_digit c then Some (acc * 10 + digit_val c) else None)"
| "int_digits (c # d # ds) acc =
     (if is_ascii_digit c then int_digits (d # ds) (acc * 10 + digit_val c)
      else if c = CHR ''_'' \<and> is_ascii_digit d then int_digits ds (acc * 10 + digit_val d)
      else None)"

definition py_int :: "string \<Rightarrow> error + int" where
  \<comment> \<open>\<open>int(s)\<close> on a string: optional whitespace, an optional sign, decimal digits
      with single underscores between them; more than 4300 digits are refused (the
      default \<open>sys.int_max_str_digits\<close> of Python 3.11 and later)\<close>
  "py_int s =
     (let t = rev (dropWhile is_int_space (rev (dropWhile is_int_space s)));
          neg = (t \<noteq> [] \<and> hd t = CHR ''-'');
          body = (if t \<noteq> [] \<and> (hd t = CHR ''-'' \<or> hd t = CHR ''+'') then tl t else t)
      in if 4300 < length (filter is_ascii_digit body) then Inl ValueError
         else
           (case body of
              [] \<Rightarrow> Inl ValueError
            | d # ds \<Rightarrow>
                if is_ascii_digit d then
                  (case int_digits ds (digit_val d) of
                     Some v \<Rightarrow> Inr (if neg then - v else v)
                   | None \<Rightarrow> Inl ValueError)
                else Inl ValueError))"

definition is_ok :: "error + 'a \<Rightarrow> bool" where
  "is_ok r = (case r of Inr _ \<Rightarrow> True | Inl _ \<Rightarrow> False)"

definition key_or_zero :: "error + int \<Rightarrow> int" where
  "key_or_zero r = (case r of Inr n \<Rightarrow> n | Inl _ \<Rightarrow> 0)"

definition sort_desc :: "('a \<Rightarrow> error + int) \<Rightarrow> 'a list \<Rightarrow> error + 'a list" where
  \<comment> \<open>\<open>xs.sort(key=k, reverse=True)\<close>: the key of every element is computed first, so
      one failing key raises; the sort is stable, also under \<open>reverse\<close>\<close>
  "sort_desc k xs =
     (if list_all (\<lambda>x. is_ok (k x)) xs
      then Inr (sort_key (\<lambda>x. - key_or_zero (k x)) xs)
      else Inl ValueError)"

definition entry_year_key :: "entry \<Rightarrow> error + int" where
  "entry_year_key x = py_int (get x ''year'' ''0'')"

definition parse_bibtex :: "string \<Rightarrow> error + entry list" where
  \<comment> \<open>the argument is the text read from the file\<close>
  "parse_bibtex content =
     (let entries = findall_entries content;
          publications = map parse_entry entries
      in sort_desc entry_year_key publications)"

section \<open>Formatting: authors, dates, titles, slugs\<close>

definition format_authors :: "string \<Rightarrow> string" where
  "format_authors authors_str =
     (if authors_str = [] then []
      else
        (let authors = map strip (split_on '' and '' [] authors_str)
         in if length authors = 1 then hd authors
            else if length authors = 2 then hd authors @ '' and '' @ hd (tl authors)
            else join '', '' (butlast authors) @ '', and '' @ last authors))"

definition months :: "(string \<times> string) list" where
  "months =
     [(''jan'', ''01''), (''january'', ''01''),
      (''feb'', ''02''), (''february'', ''02''),
      (''mar'', ''03''), (''march'', ''03''),
      (''apr'', ''04''), (''april'', ''04''),
      (''may'', ''05''),
      (''jun'', ''06''), (''june'', ''06''),
      (''jul'', ''07''), (''july'', ''07''),
      (''aug'', ''08''), (''august'', ''08''),
      (''sep'', ''09''), (''september'', ''09''),
      (''oct'', ''10''), (''october'', ''10''),
      (''nov'', ''11''), (''november'', ''11''),
      (''dec'', ''12''), (''december'', ''12'')]"

definition pad2 :: "string \<Rightarrow> string" where
  \<comment> \<open>the format \<open>{month:0>2}\<close>: right-aligned in width 2, filled with \<open>0\<close>\<close>
  "pad2 s = replicate (2 - length s) (CHR ''0'') @ s"

definition month_number :: "string \<Rightarrow> string" where
  "month_number month =
     (case map_of months (lower month) of
        Some m \<Rightarrow> m
      | None \<Rightarrow> if \<not> isdigit month then ''01'' else month)"

definition get_date_for_filename :: "entry \<Rightarrow> string" where
  "get_date_for_filename pub =
     (let year = get pub ''year'' ''2020'';
          month = get pub ''month'' ''01''
      in year @ ''-'' @ pad2 (month_number month))"

definition get_publication_title :: "entry \<Rightarrow> string" where
  "get_publication_title pub = strip (clean_latex (get pub ''title'' ''Untitled''))"

definition slug_char :: "char \<Rightarrow> bool" where
  \<comment> \<open>the class \<open>[a-z0-9\s]\<close>\<close>
  "slug_char c = (is_lower_az c \<or> is_ascii_digit c \<or> is_space c)"

definition generate_publication_slug :: "entry \<Rightarrow> string" where
  "generate_publication_slug pub =
     (let title = lower (get pub ''title'' ''untitled'');
          slug = filter slug_char title
      in join ''-'' (take 5 (split_ws slug)))"

section \<open>The page renderer \<open>generate_html\<close>\<close>

text \<open>
  The page is an f-string: fixed text with the values of the record set into it. The fixed
  text between two values is one constant below, character for character.
\<close>

definition page_part_00 :: string where
  \<open>page_part_00 =
     ''\<newline>'' @
     ''\<newline>'' @
     ''<!doctype html>\<newline>'' @
     ''<html lang="en" class="no-js">\<newline>'' @
     ''  <head>\<newline>'' @
     ''    \<newline>'' @
     ''\<newline>'' @
     ''<meta charset="utf-8">\<newline>'' @
     ''\<newline>'' @
     ''\<newline>'' @
     ''\<newline>'' @
     ''<!-- begin SEO -->\<newline>'' @
     ''\<newline>'' @
     ''\<newline>'' @
     ''\<newline>'' @
     ''\<newline>'' @
     ''\<newline>'' @
     ''\<newline>'' @
     ''\<newline>'' @
     ''\<newline>'' @
     ''\<newline>'' @
     ''<title>''\<close>

definition page_part_01 :: string where
  \<open>page_part_01 =
     '' - Your Name / Site Title</title>\<newline>'' @
     ''\<newline>'' @
     ''\<newline>'' @
     ''\<newline>'' @
     ''<meta name="description" content="''\<close>

definition page_part_02 :: string where
  \<open>page_part_02 =
     ''">\<newline>'' @
     ''\<newline>'' @
     ''\<newline>'' @
     ''\<newline>'' @
     ''\<newline>'' @
     ''\<newline>'' @
     ''  <meta property="article:published_time" content="''\<close>

definition page_part_03 :: string where
  \<open>page_part_03 =
     ''-01-01T00:00:00+00:00">\<newline>'' @
     ''\<newline>'' @
     ''\<newline>'' @
     ''\<newline>'' @
     ''  <link rel="canonical" href="/albertocarraro/publication/''\<close>

definition page_part_04 :: string where
  \<open>page_part_04 =
     ''-''\<close>

definition page_part_05 :: string where
  \<open>page_part_05 =
     ''">\<newline>'' @
     ''\<newline>'' @
     ''\<newline>'' @
     ''\<newline>'' @
     ''\<newline>'' @
     ''\<newline>'' @
     ''  \<newline>'' @
     ''\<newline>'' @
     ''  <script type="application/ld+json">\<newline>'' @
     ''    {\<newline>'' @
     ''      "@context" : "http://schema.org",\<newline>'' @
     ''      "@type" : "ScholarlyArticle",\<newline>'' @
     ''      "name" : "''\<close>

definition page_part_06 :: string where
  \<open>page_part_06 =
     ''",\<newline>'' @
     ''      "author": "''\<close>

definition page_part_07 :: string where
  \<open>page_part_07 =
     ''",\<newline>'' @
     ''      "datePublished": "''\<close>

definition page_part_08 :: string where
  \<open>page_part_08 =
     ''"\<newline>'' @
     ''    }\<newline>'' @
     ''  </script>\<newline>'' @
     ''\<newline>'' @
     ''<!-- end SEO -->\<newline>'' @
     ''\<newline>'' @
     ''<!-- Open Graph protocol data (https://ogp.me/), used by social media -->\<newline>'' @
     ''<meta property="og:locale" content="en-US">\<newline>'' @
     ''<meta property="og:site_name" content="Your Name / Site Title"> \<newline>'' @
     ''<meta property="og:title" content="''\<close>

definition page_part_09 :: string where
  \<open>page_part_09 =
     ''">\<newline>'' @
     ''\<newline>'' @
     ''  <meta property="og:type" content="article">\<newline>'' @
     ''\<newline>'' @
     ''\<newline>'' @
     ''  <meta property="og:description" name="description" content="''\<close>

definition page_part_10 :: string where
  \<open>page_part_10 =
     ''">\<newline>'' @
     ''\<newline>'' @
     ''\<newline>'' @
     ''  <meta property="og:url" content="/albertocarraro/publication/''\<close>

definition page_part_11 :: string where
  \<open>page_part_11 =
     ''-''\<close>

definition page_part_12 :: string where
  \<open>page_part_12 =
     ''">\<newline>'' @
     ''\<newline>'' @
     ''\<newline>'' @
     ''\<newline>'' @
     ''<!-- end Open Graph protocol -->\<newline>'' @
     ''\<newline>'' @
     ''<link href="/albertocarraro/feed.xml" type="application/atom+xml" rel="alternate" title="Your Name / Site Title Feed">\<newline>'' @
     ''\<newline>'' @
     ''<meta name="viewport" content="width=device-width, initial-scale=1.0">\<newline>'' @
     ''\<newline>'' @
     ''<script>\<newline>'' @
     ''  document.documentElement.className = document.documentElement.className.replace(/'' @ [CHR 0x5C] @ ''bno-js'' @ [CHR 0x5C] @ ''b/g, '' @ [CHR 0x27] @ [CHR 0x27] @ '') + '' @ [CHR 0x27] @ '' js '' @ [CHR 0x27] @ '';\<newline>'' @
     ''</script>\<newline>'' @
     ''\<newline>'' @
     ''<!-- For all browsers -->\<newline>'' @
     ''<link rel="stylesheet" href="/albertocarraro/assets/css/main.css">\<newline>'' @
     ''\<newline>'' @
     ''    \<newline>'' @
     ''\<newline>'' @
     ''<!-- start custom head snippets -->\<newline>'' @
     ''\<newline>'' @
     ''<!-- Support for Academicons -->\<newline>'' @
     ''<link rel="stylesheet" href="/albertocarraro/assets/css/academicons.css"/>\<newline>'' @
     ''\<newline>'' @
     ''<!-- favicon from https://commons.wikimedia.org/wiki/File:OOjs_UI_icon_academic-progressive.svg -->\<newline>'' @
     ''<link rel="apple-touch-icon" sizes="180x180" href="/albertocarraro/images/apple-touch-icon-180x180.png"/>\<newline>'' @
     ''<link rel="icon" type="image/svg+xml" href="/albertocarraro/images/favicon.svg"/>\<newline>'' @
     ''<link rel="icon" type="image/png" href="/albertocarraro/images/favicon-32x32.png" sizes="32x32"/>\<newline>'' @
     ''<link rel="icon" type="image/png" href="/albertocarraro/images/favicon-192x192.png" sizes="192x192"/>\<newline>'' @
     ''<link rel="manifest" href="/albertocarraro/images/manifest.json"/>\<newline>'' @
     ''<link rel="icon" href="/albertocarraro/images/favicon.ico"/>\<newline>'' @
     ''<meta name="theme-color" content="#ffffff"/>\<newline>'' @
     ''\<newline>'' @
     ''<!-- end custom head snippets -->\<newline>'' @
     ''\<newline>'' @
     ''  </head>\<newline>'' @
     ''\<newline>'' @
     ''  <body>\<newline>'' @
     ''\<newline>'' @
     ''    <!--[if lt IE 9]>\<newline>'' @
     ''<div class="notice--danger align-center" style="margin: 0;">You are using an <strong>outdated</strong> browser. Please <a href="http://browsehappy.com/">upgrade your browser</a> to improve your experience.</div>\<newline>'' @
     ''<![endif]-->\<newline>'' @
     ''    \<newline>'' @
     ''<div class="masthead">\<newline>'' @
     ''  <div class="masthead__inner-wrap">\<newline>'' @
     ''    <div class="masthead__menu">\<newline>'' @
     ''      <nav id="site-nav" class="greedy-nav">\<newline>'' @
     ''        <button><span class="navicon"></span></button>\<newline>'' @
     ''        <ul class="visible-links">\<newline>'' @
     ''          <li class="masthead__menu-item masthead__menu-item--lg persist ">\<newline>'' @
     ''            <a href="/albertocarraro/">Your Name / Site Title</a>\<newline>'' @
     ''          </li>\<newline>'' @
     ''          \<newline>'' @
     ''            \<newline>'' @
     ''            <li class="masthead__menu-item ">\<newline>'' @
     ''              <a href="/albertocarraro/publications/">Publications</a>\<newline>'' @
     ''            </li>\<newline>'' @
     ''          \<newline>'' @
     ''            \<newline>'' @
     ''            <li class="masthead__menu-item ">\<newline>'' @
     ''              <a href="/albertocarraro/talks/">Talks</a>\<newline>'' @
     ''            </li>\<newline>'' @
     ''          \<newline>'' @
     ''            \<newline>'' @
     ''            <li class="masthead__menu-item ">\<newline>'' @
     ''              <a href="/albertocarraro/teaching/">Teaching</a>\<newline>'' @
     ''            </li>\<newline>'' @
     ''          \<newline>'' @
     ''            \<newline>'' @
     ''            <li class="masthead__menu-item ">\<newline>'' @
     ''              <a href="/albertocarraro/portfolio/">Portfolio</a>\<newline>'' @
     ''            </li>\<newline>'' @
     ''          \<newline>'' @
     ''            \<newline>'' @
     ''            <li class="masthead__menu-item ">\<newline>'' @
     ''              <a href="/albertocarraro/year-archive/">Blog Posts</a>\<newline>'' @
     ''            </li>\<newline>'' @
     ''          \<newline>'' @
     ''            \<newline>'' @
     ''            <li class="masthead__menu-item ">\<newline>'' @
     ''              <a href="/albertocarraro/cv/">CV</a>\<newline>'' @
     ''            </li>\<newline>'' @
     ''          \<newline>'' @
     ''            \<newline>'' @
     ''            <li class="masthead__menu-item ">\<newline>'' @
     ''              <a href="/albertocarraro/markdown/">Guide</a>\<newline>'' @
     ''            </li>\<newline>'' @
     ''          \<newline>'' @
     ''          <li id="theme-toggle" class="masthead__menu-item persist tail">\<newline>'' @
     ''            <a role="button" aria-labelledby="theme-icon"><i id="theme-icon" class="fa-solid fa-sun" aria-hidden="true" title="toggle theme"></i></a>\<newline>'' @
     ''          </li>\<newline>'' @
     ''        </ul>\<newline>'' @
     ''        <ul class="hidden-links hidden"></ul>\<newline>'' @
     ''      </nav>\<newline>'' @
     ''    </div>\<newline>'' @
     ''  </div>\<newline>'' @
     ''</div>\<newline>'' @
     ''\<newline>'' @
     ''\<newline>'' @
     ''    <div id="main" role="main">\<newline>'' @
     ''  <div class="sidebar sticky">\<newline>'' @
     ''  <div itemscope itemtype="http://schema.org/Person">\<newline>'' @
     ''    <div class="author__avatar">\<newline>'' @
     ''        <img src="/albertocarraro/images/profile.png" class="author__avatar" alt="Alberto Carraro, PhD"  fetchpriority="high" />\<newline>'' @
     ''    </div>\<newline>'' @
     ''\<newline>'' @
     ''    <div class="author__content">\<newline>'' @
     ''      <h3 class="author__name">Alberto Carraro, PhD</h3>\<newline>'' @
     ''      <p class="author__bio">Teacher, trainer, scientist, researcher</p>\<newline>'' @
     ''    </div>\<newline>'' @
     ''\<newline>'' @
     ''    <div class="author__urls-wrapper">\<newline>'' @
     ''      <button class="btn btn--inverse">Follow</button>\<newline>'' @
     ''      <ul class="author__urls social-icons">\<newline>'' @
     ''        <li class="author__desktop"><i class="fas fa-fw fa-location-dot icon-pad-right" aria-hidden="true"></i>Earth</li>\<newline>'' @
     ''        <li class="author__desktop"><i class="fas fa-fw fa-building-columns icon-pad-right" aria-hidden="true"></i>Red Brick University</li>\<newline>'' @
     ''        <li><a href="mailto:none@example.org"><i class="fas fa-fw fa-envelope icon-pad-right" aria-hidden="true"></i>Email</a></li>\<newline>'' @
     ''        <li><a href="https://scholar.google.com/citations?user=PS_CX0AAAAAJ"><i class="ai ai-google-scholar ai-fw icon-pad-right"></i>Google Scholar</a></li>\<newline>'' @
     ''        <li><a href="https://orcid.org/yourorcidurl"><i class="ai ai-orcid ai-fw icon-pad-right"></i>ORCID</a></li>\<newline>'' @
     ''        <li><a href="https://github.com/academicpages"><i class="fab fa-fw fa-github icon-pad-right" aria-hidden="true"></i>GitHub</a></li>\<newline>'' @
     ''      </ul>\<newline>'' @
     ''    </div>\<newline>'' @
     ''  </div>\<newline>'' @
     ''  </div>\<newline>'' @
     ''\<newline>'' @
     ''  <article class="page" itemscope itemtype="http://schema.org/CreativeWork">\<newline>'' @
     ''    <meta itemprop="headline" content="''\<close>

definition page_part_13 :: string where
  \<open>page_part_13 =
     ''">\<newline>'' @
     ''    <meta itemprop="description" content="''\<close>

definition page_part_14 :: string where
  \<open>page_part_14 =
     ''">\<newline>'' @
     ''    <meta itemprop="datePublished" content="''\<close>

definition page_part_15 :: string where
  \<open>page_part_15 =
     ''">\<newline>'' @
     ''    \<newline>'' @
     ''    <div class="page__inner-wrap">\<newline>'' @
     ''      <header>\<newline>'' @
     ''        <h1 class="page__title" itemprop="headline">''\<close>

definition page_part_16 :: string where
  \<open>page_part_16 =
     ''</h1>\<newline>'' @
     ''        <p>Published in <i>''\<close>

definition page_part_17 :: string where
  \<open>page_part_17 =
     ''</i>, ''\<close>

definition page_part_18 :: string where
  \<open>page_part_18 =
     ''</p>\<newline>'' @
     ''      </header>\<newline>'' @
     ''\<newline>'' @
     ''      <section class="page__content" itemprop="text">\<newline>'' @
     ''        <h2>Authors</h2>\<newline>'' @
     ''        <p>''\<close>

definition page_part_19 :: string where
  \<open>page_part_19 =
     ''</p>\<newline>'' @
     ''        \<newline>'' @
     ''        <h2>Publication Details</h2>\<newline>'' @
     ''        <ul>\<newline>'' @
     ''          <li><strong>Year:</strong> ''\<close>

definition page_part_20 :: string where
  \<open>page_part_20 =
     ''</li>\<newline>'' @
     ''          <li><strong>Journal/Venue:</strong> ''\<close>

definition page_part_21 :: string where
  \<open>page_part_21 =
     ''</li>\<newline>'' @
     ''          ''\<close>

definition page_part_22 :: string where
  \<open>page_part_22 =
     ''\<newline>'' @
     ''          ''\<close>

definition page_part_23 :: string where
  \<open>page_part_23 =
     ''\<newline>'' @
     ''          ''\<close>

definition page_part_24 :: string where
  \<open>page_part_24 =
     ''\<newline>'' @
     ''        </ul>\<newline>'' @
     ''      </section>\<newline>'' @
     ''\<newline>'' @
     ''      <footer class="page__meta">\<newline>'' @
     ''        <p style="font-size: smaller">''\<close>

definition page_part_25 :: string where
  \<open>page_part_25 =
     ''\<newline>'' @
     ''        ''\<close>

definition page_part_26 :: string where
  \<open>page_part_26 =
     ''</p>\<newline>'' @
     ''      </footer>\<newline>'' @
     ''    </div>\<newline>'' @
     ''  </article>\<newline>'' @
     ''\<newline>'' @
     ''</div>\<newline>'' @
     ''</body>\<newline>'' @
     ''</html>\<newline>''\<close>

type_synonym fragment = string

definition page_text ::
  "fragment \<Rightarrow> fragment \<Rightarrow> fragment \<Rightarrow> fragment \<Rightarrow> fragment \<Rightarrow> fragment
   \<Rightarrow> fragment \<Rightarrow> fragment \<Rightarrow> fragment \<Rightarrow> fragment \<Rightarrow> fragment \<Rightarrow> string" where
  \<comment> \<open>the f-string of \<open>generate_html\<close>, as a function of the values it interpolates\<close>
  "page_text title date_str pub_key authors year journal volume_html pages_html doi_html
     citation links_footer =
     concat
       [page_part_00, title, page_part_01, title, page_part_02, year, page_part_03,
        date_str, page_part_04, pub_key, page_part_05, title, page_part_06, authors,
        page_part_07, year, page_part_08, title, page_part_09, title, page_part_10,
        date_str, page_part_11, pub_key, page_part_12, title, page_part_13, authors,
        page_part_14, year, page_part_15, title, page_part_16, journal, page_part_17,
        year, page_part_18, authors, page_part_19, year, page_part_20, journal,
        page_part_21, volume_html, page_part_22, pages_html, page_part_23, doi_html,
        page_part_24, citation, page_part_25, links_footer, page_part_26]"

definition generate_html :: "entry \<Rightarrow> string \<times> string \<times> string" where
  \<open>generate_html pub =
     (let title = get_publication_title pub;
          date_str = get_date_for_filename pub;
          slug = generate_publication_slug pub;
          pub_key = slug;
          authors = format_authors (get pub ''author'' ''Unknown Author'');
          year = get pub ''year'' ''n.d.'';
          journal = get pub ''journal'' (get pub ''booktitle'' ''Unknown'');
          url = get pub ''url'' [];
          doi = get pub ''doi'' [];
          pages = get pub ''pages'' [];
          volume = get pub ''volume'' [];
          number = get pub ''number'' [];
          citation_parts =
            [authors, ''('' @ year @ '').'', ''"'' @ title @ ''."'']
            @ (if journal \<noteq> [] then [''<i>'' @ journal @ ''</i>,''] else [])
            @ (if volume \<noteq> [] then [volume] else [])
            @ (if number \<noteq> [] then [''('' @ number @ '')''] else [])
            @ (if pages \<noteq> [] then [''pp. '' @ pages] else []);
          citation = join '' '' citation_parts;
          links =
            (if url \<noteq> [] then [''<a href="'' @ url @ ''">View Publication</a>''] else [])
            @ (if doi \<noteq> [] then [''<a href="https://doi.org/'' @ doi @ ''">DOI</a>''] else []);
          links_html = (if links \<noteq> [] then join '' | '' links else []);
          volume_html =
            (if volume \<noteq> [] then ''<li><strong>Volume:</strong> '' @ volume @ ''</li>'' else []);
          pages_html =
            (if pages \<noteq> [] then ''<li><strong>Pages:</strong> '' @ pages @ ''</li>'' else []);
          doi_html =
            (if doi \<noteq> []
             then ''<li><strong>DOI:</strong> <a href="https://doi.org/'' @ doi @ ''">'' @ doi
                  @ ''</a></li>''
             else []);
          links_footer = (if links_html \<noteq> [] then ''<br/>'' @ links_html else []);
          html = page_text title date_str pub_key authors year journal volume_html
                   pages_html doi_html citation links_footer
      in (html, date_str, pub_key))\<close>

section \<open>The index renderer \<open>generate_publications_index\<close>\<close>

record pub_link =
  link_filename :: string
  link_title :: string
  link_journal :: string
  link_year :: string
  link_type :: string
  link_authors :: string

definition item_part_0 :: string where
  \<open>item_part_0 =
     ''\<newline>'' @
     ''<div class="list__item">\<newline>'' @
     ''  <article class="archive__item" itemscope itemtype="http://schema.org/CreativeWork">\<newline>'' @
     ''    <h2 class="archive__item-title" itemprop="headline">\<newline>'' @
     ''      <a href="''\<close>

definition item_part_1 :: string where
  \<open>item_part_1 =
     ''" rel="permalink">''\<close>

definition item_part_2 :: string where
  \<open>item_part_2 =
     ''</a>\<newline>'' @
     ''    </h2>\<newline>'' @
     ''    \<newline>'' @
     ''    <p>Published in <i>''\<close>

definition item_part_3 :: string where
  \<open>item_part_3 =
     ''</i>, ''\<close>

definition item_part_4 :: string where
  \<open>item_part_4 =
     ''</p>\<newline>'' @
     ''    \<newline>'' @
     ''    <p class="archive__item-excerpt" itemprop="description">''\<close>

definition item_part_5 :: string where
  \<open>item_part_5 =
     ''</p>\<newline>'' @
     ''  </article>\<newline>'' @
     ''</div>\<newline>''\<close>

definition build_pub_entry :: "pub_link \<Rightarrow> string" where
  \<open>build_pub_entry pub =
     (let filename = link_filename pub;
          title = link_title pub;
          journal = link_journal pub;
          year = link_year pub;
          link_path = take (length filename - 5) filename;
          link = ''/albertocarraro/publication/'' @ link_path
      in concat [item_part_0, link, item_part_1, title, item_part_2, journal, item_part_3,
                 year, item_part_4, link_authors pub, item_part_5])\<close>

definition archive_marker :: string where
  \<open>archive_marker = ''<div class="archive">''\<close>

definition footer_marker :: string where
  \<open>footer_marker =
     ''  </div>\<newline></div>\<newline>\<newline>\<newline>    <div class="page__footer">''\<close>

definition index_header :: "string \<Rightarrow> string" where
  "index_header original =
     (case find_from archive_marker original of
        Some header_end \<Rightarrow> take header_end original
      | None \<Rightarrow> original)"

definition index_footer :: "string \<Rightarrow> string" where
  "index_footer original =
     (case find_from footer_marker original of
        Some footer_start \<Rightarrow> drop footer_start original
      | None \<Rightarrow> [])"

definition link_year_key :: "pub_link \<Rightarrow> error + int" where
  "link_year_key x = py_int (link_year x)"

definition articles :: "pub_link list \<Rightarrow> pub_link list" where
  "articles pub_links = filter (\<lambda>p. link_type p \<in> set [''article'']) pub_links"

definition books :: "pub_link list \<Rightarrow> pub_link list" where
  "books pub_links = filter (\<lambda>p. link_type p \<in> set [''book'']) pub_links"

definition inproceedings :: "pub_link list \<Rightarrow> pub_link list" where
  "inproceedings pub_links =
     filter (\<lambda>p. link_type p \<in> set [''inproceedings'', ''conference'']) pub_links"

definition incollections :: "pub_link list \<Rightarrow> pub_link list" where
  "incollections pub_links = filter (\<lambda>p. link_type p \<in> set [''incollection'']) pub_links"

definition others :: "pub_link list \<Rightarrow> pub_link list" where
  "others pub_links =
     filter (\<lambda>p. link_type p \<notin> set [''article'', ''book'', ''inproceedings'', ''conference'',
                                       ''incollection'', ''phdthesis'', ''misc''])
       pub_links"

definition thesis :: "pub_link list \<Rightarrow> pub_link list" where
  "thesis pub_links = filter (\<lambda>p. link_type p \<in> set [''phdthesis'']) pub_links"

definition misc :: "pub_link list \<Rightarrow> pub_link list" where
  "misc pub_links = filter (\<lambda>p. link_type p \<in> set [''misc'']) pub_links"

definition sections :: "pub_link list \<Rightarrow> (string \<times> pub_link list) list" where
  \<comment> \<open>the groups the renderer writes, in the order of its five \<open>if\<close> blocks, each with
      its heading; the list \<open>books\<close> is built by the source and written by none of them\<close>
  "sections pub_links =
     [(''Journal Articles'', articles pub_links),
      (''Book Chapters'', incollections pub_links),
      (''Conference Papers'', inproceedings pub_links),
      (''Theses'', thesis pub_links),
      (''Other Publications'', misc pub_links @ others pub_links)]"

definition render_section :: "string \<times> pub_link list \<Rightarrow> string" where
  \<comment> \<open>one \<open>if group:\<close> block: the heading, then the entries; nothing for an empty group\<close>
  "render_section sec =
     (case sec of (heading, pubs) \<Rightarrow>
        if pubs \<noteq> []
        then ''\<newline>    <h2>'' @ heading @ ''</h2><hr />\<newline>''
             @ concat (map build_pub_entry pubs)
        else [])"

definition index_content :: "pub_link list \<Rightarrow> string" where
  \<open>index_content pub_links =
     ''<div class="archive">\<newline>    <h1 class="page__title">Publications</h1>\<newline>''
     @ ''  <div class="wordwrap">You can also find my articles on <a href="https://scholar.google.com/citations?user=PS_CX0AAAAAJ">my Google Scholar profile</a>.</div>\<newline>\<newline>''
     @ concat (map render_section (sections pub_links))
     @ ''\<newline>  </div>\<newline></div>\<newline>''\<close>

definition generate_publications_index :: "string \<Rightarrow> pub_link list \<Rightarrow> error + string" where
  \<comment> \<open>the first argument is the text of the index file as read; the result is the text
      written back, or the error raised by the sort before anything is written\<close>
  "generate_publications_index original pub_links =
     (case sort_desc link_year_key pub_links of
        Inl e \<Rightarrow> Inl e
      | Inr sorted_links \<Rightarrow>
          Inr (index_header original @ index_content sorted_links @ index_footer original))"

section \<open>The driver \<open>main\<close>\<close>

definition output_filename :: "entry \<Rightarrow> string" where
  "output_filename pub =
     (case generate_html pub of (html, date_str, slug) \<Rightarrow> date_str @ ''-'' @ slug @ ''.html'')"

definition pub_link_of :: "entry \<Rightarrow> pub_link" where
  "pub_link_of pub =
     \<lparr> link_filename = output_filename pub,
       link_title = get_publication_title pub,
       link_journal = get pub ''journal'' (get pub ''booktitle'' ''Unknown''),
       link_year = get pub ''year'' ''n.d.'',
       link_type = get pub ''type'' ''article'',
       link_authors = format_authors (get pub ''author'' ''Unknown Author'') \<rparr>"

definition main :: "string \<Rightarrow> string \<Rightarrow> error + ((string \<times> string) list \<times> string)" where
  \<comment> \<open>from the text of the bibliography and of the index file to the detail pages written
      (file name and text, in order) and the new text of the index file\<close>
  "main bib original =
     (case parse_bibtex bib of
        Inl e \<Rightarrow> Inl e
      | Inr publications \<Rightarrow>
          (let pages = map (\<lambda>pub. (output_filename pub, fst (generate_html pub))) publications;
               pub_links = map pub_link_of publications
           in case generate_publications_index original pub_links of
                Inl e \<Rightarrow> Inl e
              | Inr new_html \<Rightarrow> Inr (pages, new_html)))"

section \<open>Properties of the cleaner\<close>

fun balanced_from :: "string \<Rightarrow> nat \<Rightarrow> bool" where
  \<comment> \<open>the braces of the text are properly nested, starting at the given depth\<close>
  "balanced_from [] depth = (depth = 0)"
| "balanced_from (c # cs) depth =
     (if c = CHR ''{'' then balanced_from cs (Suc depth)
      else if c = CHR ''}'' then (0 < depth \<and> balanced_from cs (depth - 1))
      else balanced_from cs depth)"

definition balanced :: "string \<Rightarrow> bool" where
  "balanced s = balanced_from s 0"

text \<open>
  Claim C2: for every input with balanced braces \<open>clean_latex\<close> returns a text without
  braces, and so no field of a parsed record contains a brace. The code does not do this:
  the title \<open>{Alpha} and {Beta}\<close> has balanced braces, its first and last character are
  a brace, and the first substitution takes them for a surrounding pair. The result
  \<open>Alpha} and {Beta\<close> has no pair left for the second substitution, so the loop stops
  with both braces in the text; the parser stores exactly this text for the field
  \<open>title = {{Alpha} and {Beta}}\<close>.
\<close>

theorem clean_latex_keeps_braces:
  "balanced ''{Alpha} and {Beta}''
   \<and> clean_latex ''{Alpha} and {Beta}'' = ''Alpha} and {Beta''
   \<and> parse_entry (''article'', ''k'', '' title = {{Alpha} and {Beta}}'') ''title''
       = Some ''Alpha} and {Beta''"
  by code_simp

section \<open>Properties of the index groups\<close>

text \<open>
  Claim C3: every entry of the list appears in exactly one rendered group, an entry of
  type \<open>book\<close> in the group Other. The code collects the entries of type \<open>book\<close> in a
  list of their own, keeps them out of \<open>others\<close>, and renders that list nowhere: the
  entries of the rendered groups are, with their multiplicities, the entries whose type
  is not \<open>book\<close>. So every other entry appears exactly once and a \<open>book\<close> entry never.
\<close>

theorem rendered_groups_omit_books:
  "mset (concat (map snd (sections pub_links)))
   = mset (filter (\<lambda>p. link_type p \<noteq> ''book'') pub_links)"
proof (rule multiset_eqI)
  fix x
  show "count (mset (concat (map snd (sections pub_links)))) x
      = count (mset (filter (\<lambda>p. link_type p \<noteq> ''book'') pub_links)) x"
    by (auto simp: sections_def articles_def incollections_def inproceedings_def
        thesis_def misc_def others_def)
qed

theorem rendered_groups_omit_books_witness:
  "mset (concat (map snd
     (sections [\<lparr> link_filename = ''2001-01-a-book.html'', link_title = ''A Book'',
                  link_journal = ''Unknown'', link_year = ''2001'', link_type = ''book'',
                  link_authors = ''A. Carraro'' \<rparr>])))
   = {#}"
  using rendered_groups_omit_books
    [of "[\<lparr> link_filename = ''2001-01-a-book.html'', link_title = ''A Book'',
            link_journal = ''Unknown'', link_year = ''2001'', link_type = ''book'',
            link_authors = ''A. Carraro'' \<rparr>]"]
  by simp

section \<open>Properties of the file name prefix\<close>

definition two_digit_months :: "string list" where
  "two_digit_months =
     [''01'', ''02'', ''03'', ''04'', ''05'', ''06'', ''07'', ''08'', ''09'', ''10'', ''11'', ''12'']"

lemma months_range:
  "map_of months k = Some m \<Longrightarrow> m \<in> set two_digit_months"
proof -
  assume "map_of months k = Some m"
  then have "(k, m) \<in> set months" by (rule map_of_SomeD)
  then show ?thesis
    unfolding months_def two_digit_months_def by auto
qed

lemma pad2_digits:
  "isdigit m \<Longrightarrow> 2 \<le> length (pad2 m) \<and> (2 \<le> length m \<longrightarrow> pad2 m = m)"
  by (cases m) (auto simp: pad2_def isdigit_def)

text \<open>
  Claim C5, as stated, fails: a month field of digits is used as it is, whatever number
  it spells.
\<close>

theorem date_prefix_month_counterexample:
  "get_date_for_filename [''year'' \<mapsto> ''2021'', ''month'' \<mapsto> ''13''] = ''2021-13''"
  by code_simp

text \<open>
  Claim C5, amended: the prefix is the year field (or \<open>2020\<close>), a hyphen and a month part.
  The month part is \<open>01\<close> when the month field is absent; the table's two-digit number
  between \<open>01\<close> and \<open>12\<close> when the lower-cased field is a key of the table; the field
  itself, filled to two characters with a leading \<open>0\<close>, when it is all digits; and
  \<open>01\<close> otherwise.
\<close>

theorem date_prefix_form:
  "\<exists>mm. get_date_for_filename pub = get pub ''year'' ''2020'' @ ''-'' @ mm
     \<and> (case pub ''month'' of
          None \<Rightarrow> mm = ''01''
        | Some month \<Rightarrow>
            (case map_of months (lower month) of
               Some m \<Rightarrow> mm = m \<and> mm \<in> set two_digit_months
             | None \<Rightarrow>
                 if isdigit month
                 then mm = replicate (2 - length month) (CHR ''0'') @ month \<and> 2 \<le> length mm
                 else mm = ''01''))"
proof (cases "pub ''month''")
  case None
  have "month_number ''01'' = ''01''" by code_simp
  then show ?thesis
    using None by (simp add: get_date_for_filename_def get_def pad2_def)
next
  case (Some month)
  show ?thesis
  proof (cases "map_of months (lower month)")
    case None
    then show ?thesis
      using Some pad2_digits [of month]
      by (auto simp: get_date_for_filename_def get_def month_number_def pad2_def)
  next
    case (Some m)
    have m: "m \<in> set two_digit_months" using Some by (rule months_range)
    then have "pad2 m = m"
      unfolding two_digit_months_def pad2_def by auto
    then show ?thesis
      using Some \<open>pub ''month'' = Some month\<close> m
      by (simp add: get_date_for_filename_def get_def month_number_def)
  qed
qed

theorem date_prefix_form_witness:
  "\<exists>mm. get_date_for_filename [''year'' \<mapsto> ''2019'', ''month'' \<mapsto> ''Sep''] = ''2019-'' @ mm
     \<and> mm = ''09'' \<and> mm \<in> set two_digit_months"
proof -
  let ?pub = "[''year'' \<mapsto> ''2019'', ''month'' \<mapsto> ''Sep'']"
  have l: "map_of months (lower ''Sep'') = Some ''09''" by code_simp
  have y: "get ?pub ''year'' ''2020'' = ''2019''" by code_simp
  have mo: "?pub ''month'' = Some ''Sep''" by simp
  from date_prefix_form [of ?pub] obtain mm where
    "get_date_for_filename ?pub = get ?pub ''year'' ''2020'' @ ''-'' @ mm"
    and c: "(case ?pub ''month'' of
          None \<Rightarrow> mm = ''01''
        | Some month \<Rightarrow>
            (case map_of months (lower month) of
               Some m \<Rightarrow> mm = m \<and> mm \<in> set two_digit_months
             | None \<Rightarrow>
                 if isdigit month
                 then mm = replicate (2 - length month) (CHR ''0'') @ month \<and> 2 \<le> length mm
                 else mm = ''01''))"
    by blast
  then have "get_date_for_filename ?pub = ''2019-'' @ mm" using y by simp
  moreover have "mm = ''09'' \<and> mm \<in> set two_digit_months"
    using c unfolding mo option.case l by blast
  ultimately show ?thesis by blast
qed


section \<open>Properties of the extractor's order\<close>

definition year_num :: "entry \<Rightarrow> int" where
  \<comment> \<open>the number a record is sorted by, when its key can be computed\<close>
  "year_num p = key_or_zero (entry_year_key p)"

lemma sort_desc_Inr:
  assumes "list_all (\<lambda>x. is_ok (k x)) xs"
  shows "\<exists>ys. sort_desc k xs = Inr ys
     \<and> sorted_wrt (\<lambda>a b. key_or_zero (k b) \<le> key_or_zero (k a)) ys
     \<and> mset ys = mset xs
     \<and> (\<forall>y. filter (\<lambda>x. key_or_zero (k x) = y) ys = filter (\<lambda>x. key_or_zero (k x) = y) xs)"
proof -
  let ?f = "\<lambda>x. - key_or_zero (k x)"
  let ?ys = "sort_key ?f xs"
  have r: "sort_desc k xs = Inr ?ys"
    using assms by (simp add: sort_desc_def)
  have "sorted (map ?f ?ys)" by (rule sorted_sort_key)
  then have s: "sorted_wrt (\<lambda>a b. key_or_zero (k b) \<le> key_or_zero (k a)) ?ys"
    by (simp add: sorted_wrt_map)
  have st: "filter (\<lambda>x. key_or_zero (k x) = y) ?ys = filter (\<lambda>x. key_or_zero (k x) = y) xs"
    for y
    using sort_key_stable [of ?f "- y" xs] by simp
  show ?thesis
    using r s st by simp
qed

lemma sort_desc_Inl:
  "\<not> list_all (\<lambda>x. is_ok (k x)) xs \<Longrightarrow> sort_desc k xs = Inl ValueError"
  by (simp add: sort_desc_def)

lemma py_int_zero: "py_int ''0'' = Inr 0"
  by code_simp

lemma py_int_nd: "py_int ''n.d.'' = Inl ValueError"
  by code_simp

text \<open>
  Where the year field of every parsed record is absent or accepted by \<open>int\<close>, the
  extractor returns the parsed records ordered by descending numeric year, a record
  without a year field counting as year 0, and the sort is stable: the records of each
  year keep their order.
\<close>

theorem parse_bibtex_sorted_stable:
  assumes "list_all (\<lambda>p. is_ok (entry_year_key p)) (map parse_entry (findall_entries content))"
  shows "\<exists>pubs. parse_bibtex content = Inr pubs
     \<and> sorted_wrt (\<lambda>a b. year_num b \<le> year_num a) pubs
     \<and> mset pubs = mset (map parse_entry (findall_entries content))
     \<and> (\<forall>y. filter (\<lambda>p. year_num p = y) pubs
             = filter (\<lambda>p. year_num p = y) (map parse_entry (findall_entries content)))
     \<and> (\<forall>p. p ''year'' = None \<longrightarrow> is_ok (entry_year_key p) \<and> year_num p = 0)"
proof -
  have z: "is_ok (entry_year_key p) \<and> year_num p = 0" if "p ''year'' = None" for p :: entry
    using that py_int_zero
    by (simp add: year_num_def entry_year_key_def get_def key_or_zero_def is_ok_def)
  from sort_desc_Inr [OF assms] z show ?thesis
    unfolding parse_bibtex_def Let_def year_num_def by blast
qed

definition four_records :: string where
  \<open>four_records =
     ''@article{a, year = {2001}\<newline>}\<newline>'' @
     ''@misc{b, title = {No Year}\<newline>}\<newline>'' @
     ''@book{c, year = {2020}\<newline>}\<newline>'' @
     ''@article{d, year = {2001}\<newline>}\<newline>''\<close>

lemma four_records_keys:
  "(case parse_bibtex four_records of
      Inr pubs \<Rightarrow> map (\<lambda>p. p ''key'') pubs = [Some ''c'', Some ''a'', Some ''d'', Some ''b'']
    | Inl e \<Rightarrow> False)"
  unfolding four_records_def by code_simp

theorem parse_bibtex_sorted_stable_witness:
  "\<exists>pubs. parse_bibtex four_records = Inr pubs
     \<and> map (\<lambda>p. p ''key'') pubs = [Some ''c'', Some ''a'', Some ''d'', Some ''b'']
     \<and> sorted_wrt (\<lambda>a b. year_num b \<le> year_num a) pubs"
proof -
  have h: "list_all (\<lambda>p. is_ok (entry_year_key p))
      (map parse_entry (findall_entries four_records))"
    unfolding four_records_def by code_simp
  from parse_bibtex_sorted_stable [OF h] obtain pubs where
    p: "parse_bibtex four_records = Inr pubs"
    and s: "sorted_wrt (\<lambda>a b. year_num b \<le> year_num a) pubs"
    by blast
  from four_records_keys p
  have k: "map (\<lambda>p. p ''key'') pubs = [Some ''c'', Some ''a'', Some ''d'', Some ''b'']"
    by simp
  show ?thesis
    by (rule exI [of _ pubs]) (simp only: p s k simp_thms)
qed

lemma py_int_forthcoming: "py_int ''forthcoming'' = Inl ValueError"
  by code_simp

text \<open>
  Claim C1: the extractor returns the records ordered by descending numeric year, a
  missing or non-numeric year counting as year 0, stably, and does not raise on a record
  whose year field is a non-numeric string. The code does not do this for a year field
  that is not a number: the sort key is \<open>int\<close> of the field, and the default \<open>0\<close>
  stands in for an absent field only. So whenever some parsed record has a year field
  that \<open>int\<close> rejects, the extractor raises \<open>ValueError\<close> and returns no sequence
  at all.
\<close>

theorem parse_bibtex_raises_on_non_numeric_year:
  assumes "p \<in> set (map parse_entry (findall_entries content))"
    and "p ''year'' = Some y"
    and "py_int y = Inl ValueError"
  shows "parse_bibtex content = Inl ValueError"
proof -
  have "\<not> is_ok (entry_year_key p)"
    using assms(2,3) by (simp add: entry_year_key_def get_def is_ok_def)
  then have "\<not> list_all (\<lambda>x. is_ok (entry_year_key x))
      (map parse_entry (findall_entries content))"
    using assms(1) unfolding list_all_iff by blast
  then show ?thesis
    unfolding parse_bibtex_def Let_def by (rule sort_desc_Inl)
qed

definition forthcoming_bib :: string where
  \<open>forthcoming_bib = ''@misc{k, year = {forthcoming}\<newline>}''\<close>

lemma forthcoming_bib_parsed:
  "(case map parse_entry (findall_entries forthcoming_bib) of
      [p] \<Rightarrow> p ''year'' = Some ''forthcoming''
    | _ \<Rightarrow> False)"
  unfolding forthcoming_bib_def by code_simp

theorem parse_bibtex_raises_on_non_numeric_year_witness:
  "(\<exists>p. map parse_entry (findall_entries forthcoming_bib) = [p]
      \<and> p ''year'' = Some ''forthcoming'')
   \<and> py_int ''forthcoming'' = Inl ValueError
   \<and> parse_bibtex forthcoming_bib = Inl ValueError"
proof -
  from forthcoming_bib_parsed obtain p where
    l: "map parse_entry (findall_entries forthcoming_bib) = [p]"
    and y: "p ''year'' = Some ''forthcoming''"
    by (auto split: list.splits)
  have m: "p \<in> set (map parse_entry (findall_entries forthcoming_bib))"
    unfolding l by simp
  have r: "parse_bibtex forthcoming_bib = Inl ValueError"
    using parse_bibtex_raises_on_non_numeric_year [OF m y py_int_forthcoming] .
  show ?thesis
    by (intro conjI exI [of _ p]) (rule l y py_int_forthcoming r)+
qed

section \<open>Properties of a run of the generator\<close>

lemma output_filename_code [code]:
  "output_filename pub
   = get_date_for_filename pub @ ''-'' @ generate_publication_slug pub @ ''.html''"
  unfolding output_filename_def generate_html_def Let_def by simp

lemma link_year_missing:
  "pub ''year'' = None \<Longrightarrow> link_year (pub_link_of pub) = ''n.d.''"
  by (simp add: pub_link_of_def get_def)

text \<open>
  Claim C4: a record with an absent field is rendered with the placeholder, and both the
  detail pages and the index are generated without raising, in particular for a record
  with no year field. The code does not do this: \<open>main\<close> gives such a record the year
  \<open>n.d.\<close> in the summary list, and the index renderer sorts the list by \<open>int\<close> of that
  year, which raises. So whenever some parsed record has no year field, the run ends in
  the error, and no index is written.
\<close>

theorem index_raises_without_year:
  assumes "parse_bibtex bib = Inr publications"
    and "pub \<in> set publications"
    and "pub ''year'' = None"
  shows "link_year (pub_link_of pub) = ''n.d.'' \<and> main bib original = Inl ValueError"
proof -
  have y: "link_year (pub_link_of pub) = ''n.d.''"
    using assms(3) by (rule link_year_missing)
  then have "\<not> is_ok (link_year_key (pub_link_of pub))"
    using py_int_nd by (simp add: link_year_key_def is_ok_def)
  then have "\<not> list_all (\<lambda>x. is_ok (link_year_key x)) (map pub_link_of publications)"
    using assms(2) by (auto simp: list_all_iff)
  then have "generate_publications_index original (map pub_link_of publications)
      = Inl ValueError"
    by (simp add: generate_publications_index_def sort_desc_Inl)
  then show ?thesis
    using y assms(1) by (simp add: main_def)
qed

definition no_year_bib :: string where
  \<open>no_year_bib = ''@article{k,\<newline>  title = {A Title}\<newline>}\<newline>''\<close>

lemma no_year_bib_parsed:
  "(case parse_bibtex no_year_bib of
      Inr [pub] \<Rightarrow> pub ''year'' = None \<and> pub ''title'' = Some ''A Title''
    | _ \<Rightarrow> False)"
  unfolding no_year_bib_def by code_simp

theorem index_raises_without_year_witness:
  "(\<exists>pub. parse_bibtex no_year_bib = Inr [pub] \<and> pub ''year'' = None)
   \<and> (\<forall>original. main no_year_bib original = Inl ValueError)"
proof -
  from no_year_bib_parsed obtain pub where
    p: "parse_bibtex no_year_bib = Inr [pub]" and y: "pub ''year'' = None"
    by (auto split: sum.splits list.splits)
  have "main no_year_bib original = Inl ValueError" for original
    using index_raises_without_year [of no_year_bib "[pub]" pub original] p y by simp
  with p y show ?thesis by blast
qed

section \<open>The example record\<close>

definition single_line_example :: string where
  \<open>single_line_example =
     ''@article{carraro2023, title = {A Study of {GF}(2) Codes}, '' @
     ''author = {A. Carraro and B. Smith}, year = {2023}, journal = {J. Coding}}''\<close>

definition closed_example :: string where
  \<comment> \<open>the same record, its closing brace on a line of its own\<close>
  \<open>closed_example =
     ''@article{carraro2023, title = {A Study of {GF}(2) Codes}, '' @
     ''author = {A. Carraro and B. Smith}, year = {2023}, journal = {J. Coding}\<newline>}''\<close>

text \<open>
  Claim C6, as stated, fails: an entry ends at a closing brace that follows a newline,
  and the record as the claim writes it, on one line, has none. No record is parsed.
\<close>

theorem example_single_line_counterexample:
  "findall_entries single_line_example = []
   \<and> (case parse_bibtex single_line_example of Inr pubs \<Rightarrow> length pubs = 0 | Inl e \<Rightarrow> False)"
  unfolding single_line_example_def by code_simp

lemma example_closed_record_parsed:
  "(case parse_bibtex closed_example of
      Inr [pub] \<Rightarrow>
        get_publication_title pub = ''A Study of GF(2) Codes''
        \<and> format_authors (get pub ''author'' ''Unknown Author'') = ''A. Carraro and B. Smith''
        \<and> output_filename pub = ''2023-01-a-study-of-gf2-codes.html''
    | _ \<Rightarrow> False)"
  unfolding closed_example_def by code_simp

lemma generate_html_page:
  "\<exists>d k y j v pg doi c l. fst (generate_html pub)
     = page_text (get_publication_title pub) d k
         (format_authors (get pub ''author'' ''Unknown Author'')) y j v pg doi c l"
  unfolding generate_html_def Let_def fst_conv by blast

lemma page_text_title:
  "prefix (page_part_00 @ t @ page_part_01) (page_text t d k a y j v pg doi c l)"
  by (simp add: page_text_def)

lemma page_text_authors:
  "\<exists>pre post. page_text t d k a y j v pg doi c l
     = pre @ page_part_18 @ a @ page_part_19 @ post"
proof -
  let ?pre = "concat [page_part_00, t, page_part_01, t, page_part_02, y, page_part_03,
              d, page_part_04, k, page_part_05, t, page_part_06, a, page_part_07, y,
              page_part_08, t, page_part_09, t, page_part_10, d, page_part_11, k,
              page_part_12, t, page_part_13, a, page_part_14, y, page_part_15, t,
              page_part_16, j, page_part_17, y]"
  let ?post = "concat [y, page_part_20, j, page_part_21, v, page_part_22, pg,
               page_part_23, doi, page_part_24, c, page_part_25, l, page_part_26]"
  have "page_text t d k a y j v pg doi c l = ?pre @ page_part_18 @ a @ page_part_19 @ ?post"
    by (simp add: page_text_def)
  then show ?thesis by blast
qed

lemma generate_html_title:
  "prefix (page_part_00 @ get_publication_title pub @ page_part_01) (fst (generate_html pub))"
  using generate_html_page [of pub] page_text_title by auto

lemma generate_html_authors:
  "\<exists>pre post. fst (generate_html pub)
     = pre @ page_part_18 @ format_authors (get pub ''author'' ''Unknown Author'')
       @ page_part_19 @ post"
  using generate_html_page [of pub] page_text_authors by metis

lemma page_part_tags:
  "suffix ''<title>'' page_part_00
   \<and> prefix '' - Your Name / Site Title</title>'' page_part_01
   \<and> suffix ''<h2>Authors</h2>\<newline>        <p>'' page_part_18
   \<and> prefix ''</p>'' page_part_19"
  by code_simp

text \<open>
  Claim C6, amended: for the same record written with its closing brace on a line of its
  own, exactly one record is parsed; its page title is \<open>A Study of GF(2) Codes\<close>, its
  author line \<open>A. Carraro and B. Smith\<close> and its file name
  \<open>2023-01-a-study-of-gf2-codes.html\<close>. The page starts with the fixed text that ends
  in the opening \<open>title\<close> tag, then the title; the author line stands between the
  fixed text that ends in the heading \<open>Authors\<close> and an opening \<open>p\<close> tag, and the
  text that starts with the closing \<open>p\<close> tag.
\<close>

theorem example_closed_record:
  "\<exists>pub. parse_bibtex closed_example = Inr [pub]
     \<and> get_publication_title pub = ''A Study of GF(2) Codes''
     \<and> format_authors (get pub ''author'' ''Unknown Author'') = ''A. Carraro and B. Smith''
     \<and> output_filename pub = ''2023-01-a-study-of-gf2-codes.html''
     \<and> prefix (page_part_00 @ ''A Study of GF(2) Codes'' @ page_part_01)
          (fst (generate_html pub))
     \<and> (\<exists>pre post. fst (generate_html pub)
           = pre @ page_part_18 @ ''A. Carraro and B. Smith'' @ page_part_19 @ post)"
proof -
  from example_closed_record_parsed obtain pub where
    p: "parse_bibtex closed_example = Inr [pub]"
    and t: "get_publication_title pub = ''A Study of GF(2) Codes''"
    and a: "format_authors (get pub ''author'' ''Unknown Author'') = ''A. Carraro and B. Smith''"
    and f: "output_filename pub = ''2023-01-a-study-of-gf2-codes.html''"
    by (auto split: sum.splits list.splits)
  show ?thesis
    using p t a f generate_html_title [of pub] generate_html_authors [of pub]
    by (intro exI [of _ pub]) (simp only: simp_thms)
qed


section \<open>Properties of the author formatter\<close>

definition no_separator :: "string \<Rightarrow> bool" where
  \<comment> \<open>the name holds no separator: in the name followed by \<open>' and '\<close> the first
      occurrence of \<open>' and '\<close> is the one put after it (so the name neither contains
      \<open>' and '\<close> nor ends in \<open>' and'\<close>)\<close>
  "no_separator n = (find_from '' and '' (n @ '' and '') = Some (length n))"

lemma prefix_append_long:
  "length p \<le> length a \<Longrightarrow> prefix p (a @ b) = prefix p a"
  by (auto simp: prefix_append)

lemma split_on_piece:
  assumes "sep \<noteq> []" and "find_from sep (n @ sep) = Some (length n)"
  shows "split_on sep acc (n @ sep @ rest) = (acc @ n) # split_on sep [] rest"
  using assms(2)
proof (induction n arbitrary: acc)
  case Nil
  obtain c cs where sep: "sep = c # cs" using assms(1) by (cases sep) auto
  have "prefix sep (c # cs @ rest)" by (simp add: sep)
  then have "split_on sep acc (c # cs @ rest)
      = acc # split_on sep [] (drop (length sep - 1) (cs @ rest))"
    by simp
  then show ?case by (simp add: sep)
next
  case (Cons x xs)
  from Cons.prems have np: "\<not> prefix sep (x # xs @ sep)"
    and f: "find_from sep (xs @ sep) = Some (length xs)"
    by (auto split: if_splits)
  have "prefix sep ((x # xs @ sep) @ rest) = prefix sep (x # xs @ sep)"
    by (rule prefix_append_long) simp
  with np have "\<not> prefix sep (x # (xs @ sep @ rest))" by simp
  then have "split_on sep acc (x # (xs @ sep @ rest))
      = split_on sep (acc @ [x]) (xs @ sep @ rest)"
    by simp
  also have "\<dots> = ((acc @ [x]) @ xs) # split_on sep [] rest"
    using f by (rule Cons.IH)
  finally show ?case by simp
qed

lemma split_on_last:
  assumes "find_from sep (n @ sep) = Some (length n)"
  shows "split_on sep acc n = [acc @ n]"
  using assms
proof (induction n arbitrary: acc)
  case Nil
  show ?case by simp
next
  case (Cons x xs)
  from Cons.prems have np: "\<not> prefix sep ((x # xs) @ sep)"
    and f: "find_from sep (xs @ sep) = Some (length xs)"
    by (auto split: if_splits)
  from np have "\<not> prefix sep (x # xs)"
    using prefix_prefix by blast
  then have "split_on sep acc (x # xs) = split_on sep (acc @ [x]) xs" by simp
  also have "\<dots> = [(acc @ [x]) @ xs]" using f by (rule Cons.IH)
  finally show ?case by simp
qed

lemma split_on_join:
  "sep \<noteq> [] \<Longrightarrow> ns \<noteq> [] \<Longrightarrow> \<forall>n\<in>set ns. find_from sep (n @ sep) = Some (length n) \<Longrightarrow>
   split_on sep [] (join sep ns) = ns"
proof (induction sep ns rule: join.induct)
  case (1 sep)
  then show ?case by simp
next
  case (2 sep x)
  then show ?case by (simp add: split_on_last)
next
  case (3 sep x y ys)
  have "split_on sep [] (x @ sep @ join sep (y # ys))
      = ([] @ x) # split_on sep [] (join sep (y # ys))"
    using "3.prems" by (intro split_on_piece) auto
  then show ?case using 3 by simp
qed

lemma join_eq_Nil: "sep \<noteq> [] \<Longrightarrow> join sep ns = [] \<Longrightarrow> ns = [] \<or> ns = [[]]"
  by (induction sep ns rule: join.induct) auto

lemma format_authors_join:
  assumes "ns \<noteq> []" and "\<forall>n\<in>set ns. no_separator n"
  shows "format_authors (join '' and '' ns) =
     (let authors = map strip ns
      in if length authors = 1 then hd authors
         else if length authors = 2 then hd authors @ '' and '' @ hd (tl authors)
         else join '', '' (butlast authors) @ '', and '' @ last authors)"
proof (cases "join '' and '' ns = []")
  case True
  then have "ns = [[]]" using assms(1) join_eq_Nil [of "'' and ''" ns] by auto
  then show ?thesis by (simp add: format_authors_def strip_def)
next
  case False
  have "split_on '' and '' [] (join '' and '' ns) = ns"
    using assms by (intro split_on_join) (auto simp: no_separator_def)
  then show ?thesis
    using False by (simp add: format_authors_def)
qed

lemma collapse_ws_spaces:
  "c \<in> set (collapse_ws s) \<Longrightarrow> is_space c \<Longrightarrow> c = CHR '' ''"
  by (induction s rule: collapse_ws.induct) (auto split: if_splits)

lemma set_strip: "set (strip s) \<subseteq> set s"
proof -
  have "set (dropWhile is_space (rev (dropWhile is_space s))) \<subseteq> set (rev (dropWhile is_space s))"
    by (auto dest: set_dropWhileD)
  also have "\<dots> \<subseteq> set s"
    by (auto dest: set_dropWhileD)
  finally show ?thesis by (simp add: strip_def)
qed

lemma clean_latex_spaces:
  "c \<in> set (clean_latex t) \<Longrightarrow> is_space c \<Longrightarrow> c = CHR '' ''"
proof (cases "t = []")
  case True
  assume "c \<in> set (clean_latex t)"
  with True show ?thesis by (simp add: clean_latex_def)
next
  case False
  assume "c \<in> set (clean_latex t)" and s: "is_space c"
  then have "c \<in> set (collapse_ws (clean_loop t))"
    using False set_strip by (auto simp: clean_latex_def)
  then show ?thesis using s by (rule collapse_ws_spaces)
qed

lemma strip_trims:
  "(\<exists>l r. s = l @ strip s @ r \<and> list_all is_space l \<and> list_all is_space r)
   \<and> (strip s \<noteq> [] \<longrightarrow> \<not> is_space (hd (strip s)) \<and> \<not> is_space (last (strip s)))"
proof -
  define t where "t = dropWhile is_space s"
  define u where "u = dropWhile is_space (rev t)"
  have st: "strip s = rev u" by (simp add: strip_def t_def u_def)
  have s: "s = takeWhile is_space s @ t" by (simp add: t_def)
  have "rev t = takeWhile is_space (rev t) @ u" by (simp add: u_def)
  then have "rev (rev t) = rev (takeWhile is_space (rev t) @ u)" by simp
  then have t: "t = rev u @ rev (takeWhile is_space (rev t))" by simp
  have l: "list_all is_space (takeWhile is_space s)"
    by (auto simp: list_all_iff dest: set_takeWhileD)
  have r: "list_all is_space (rev (takeWhile is_space (rev t)))"
    by (auto simp: list_all_iff dest: set_takeWhileD)
  have "s = takeWhile is_space s @ strip s @ rev (takeWhile is_space (rev t))"
    using s t st by simp
  then have 1: "\<exists>l r. s = l @ strip s @ r \<and> list_all is_space l \<and> list_all is_space r"
    using l r by blast
  have 2: "\<not> is_space (hd (strip s)) \<and> \<not> is_space (last (strip s))" if ne: "strip s \<noteq> []"
  proof -
    have une: "u \<noteq> []" using ne st by simp
    then have "\<not> is_space (hd u)" unfolding u_def by (rule hd_dropWhile)
    then have la: "\<not> is_space (last (strip s))" using une st by (simp add: last_rev)
    have tne: "t \<noteq> []" using t une by auto
    then have "\<not> is_space (hd t)" unfolding t_def by (rule hd_dropWhile)
    moreover have "hd t = hd (rev u)" using t une by (metis hd_append2 rev_is_Nil_conv)
    ultimately show ?thesis using la st by simp
  qed
  from 1 2 show ?thesis by blast
qed

definition tab_joined :: string where
  "tab_joined = ''A'' @ [CHR 0x09] @ ''and'' @ [CHR 0x09] @ ''B''"

text \<open>
  Claim C7, as stated, fails: the formatter splits at the five characters \<open>' and '\<close>
  only. Two authors joined by the word \<open>and\<close> between tabs, which are whitespace, come
  back unchanged as one author, not as \<open>A and B\<close>.
\<close>

theorem format_authors_tab_counterexample:
  "is_space (CHR 0x09)
   \<and> format_authors tab_joined = tab_joined
   \<and> format_authors tab_joined \<noteq> ''A and B''"
  unfolding tab_joined_def by code_simp

text \<open>
  Claim C7, amended: on authors joined by the word \<open>and\<close> between single space
  characters (the separator \<open>' and '\<close> of the code), each a name that holds no
  separator itself, the formatter returns the empty text for the empty input, the one
  name for one author, \<open>A and B\<close> for two, and for three or more the names but the last
  joined by commas, then \<open>', and '\<close> and the last name; each name is trimmed of
  surrounding whitespace: what \<open>strip\<close> returns is the text without the whitespace
  before its first and after its last character that is not whitespace.
\<close>

theorem format_authors_cases:
  "format_authors [] = []
   \<and> (no_separator a \<longrightarrow> format_authors a = strip a)
   \<and> (no_separator a \<and> no_separator b \<longrightarrow>
        format_authors (a @ '' and '' @ b) = strip a @ '' and '' @ strip b)
   \<and> (3 \<le> length ns \<and> (\<forall>n\<in>set ns. no_separator n) \<longrightarrow>
        format_authors (join '' and '' ns)
        = join '', '' (map strip (butlast ns)) @ '', and '' @ strip (last ns))
   \<and> (\<exists>l r. w = l @ strip w @ r \<and> list_all is_space l \<and> list_all is_space r)
   \<and> (strip w \<noteq> [] \<longrightarrow> \<not> is_space (hd (strip w)) \<and> \<not> is_space (last (strip w)))"
proof (intro conjI impI)
  show "format_authors [] = []" by (simp add: format_authors_def)
next
  assume "no_separator a"
  then show "format_authors a = strip a"
    using format_authors_join [of "[a]"] by simp
next
  assume "no_separator a \<and> no_separator b"
  then show "format_authors (a @ '' and '' @ b) = strip a @ '' and '' @ strip b"
    using format_authors_join [of "[a, b]"] by simp
next
  assume h: "3 \<le> length ns \<and> (\<forall>n\<in>set ns. no_separator n)"
  then have ne: "ns \<noteq> []" by auto
  have "format_authors (join '' and '' ns)
      = join '', '' (butlast (map strip ns)) @ '', and '' @ last (map strip ns)"
    using format_authors_join [OF ne] h by (simp add: Let_def)
  then show "format_authors (join '' and '' ns)
      = join '', '' (map strip (butlast ns)) @ '', and '' @ strip (last ns)"
    using ne by (simp add: map_butlast last_map)
next
  show "\<exists>l r. w = l @ strip w @ r \<and> list_all is_space l \<and> list_all is_space r"
    using strip_trims [of w] by blast
next
  assume "strip w \<noteq> []"
  then show "\<not> is_space (hd (strip w))" and "\<not> is_space (last (strip w))"
    using strip_trims [of w] by blast+
qed

theorem format_authors_cases_witness:
  "format_authors [] = []
   \<and> format_authors '' X '' = ''X''
   \<and> format_authors '' X  and Y'' = ''X and Y''
   \<and> format_authors ''W and  X and Y  and Z'' = ''W, X, Y, and Z''"
proof -
  have n: "no_separator ''W''" "no_separator '' X''" "no_separator ''Y ''" "no_separator ''Z''"
    "no_separator '' X ''" "no_separator ''Y''"
    by code_simp+
  have s: "strip ''W'' = ''W''" "strip '' X'' = ''X''" "strip ''Y '' = ''Y''" "strip ''Z'' = ''Z''"
    "strip '' X '' = ''X''" "strip ''Y'' = ''Y''"
    by code_simp+
  have a: "\<forall>n\<in>set [''W'', '' X'', ''Y '', ''Z'']. no_separator n"
    using n by simp
  have l: "3 \<le> length [''W'', '' X'', ''Y '', ''Z'']" by simp
  from format_authors_cases [of "'' X ''" "''Y''" "[''W'', '' X'', ''Y '', ''Z'']"]
  have "format_authors [] = []"
    and "format_authors '' X '' = strip '' X ''"
    and "format_authors ('' X '' @ '' and '' @ ''Y'') = strip '' X '' @ '' and '' @ strip ''Y''"
    and "format_authors (join '' and '' [''W'', '' X'', ''Y '', ''Z''])
         = join '', '' (map strip (butlast [''W'', '' X'', ''Y '', ''Z'']))
           @ '', and '' @ strip (last [''W'', '' X'', ''Y '', ''Z''])"
    using n a l by blast+
  then show ?thesis
    using s by simp
qed

section \<open>Properties of the field scan\<close>

fun scan_loop :: "nat \<Rightarrow> string \<Rightarrow> nat \<Rightarrow> entry \<Rightarrow> entry option" where
  \<comment> \<open>the loop run for at most the given number of iterations: \<open>None\<close> when it has not
      left by then\<close>
  "scan_loop 0 body pos e = None"
| "scan_loop (Suc n) body pos e =
     (case scan_step body (pos, e) of
        None \<Rightarrow> Some e
      | Some (pos', e') \<Rightarrow> scan_loop n body pos' e')"

lemma find_from_bound:
  "find_from p s = Some n \<Longrightarrow> n + length p \<le> length s"
proof (induction s arbitrary: n)
  case Nil
  then show ?case by (auto split: if_splits)
next
  case (Cons c cs)
  show ?case
  proof (cases "prefix p (c # cs)")
    case True
    then show ?thesis using Cons.prems by (auto dest: prefix_length_le)
  next
    case False
    then obtain m where "find_from p cs = Some m" "n = Suc m"
      using Cons.prems by auto
    then show ?thesis using Cons.IH by fastforce
  qed
qed

lemma brace_end_bound:
  "brace_end s c i = Some e \<Longrightarrow> i < e \<and> e \<le> i + length s"
  by (induction s c i rule: brace_end.induct) (fastforce split: if_splits)+

lemma value_end_of_bound:
  "value_start < value_end_of body value_start \<Longrightarrow>
   value_end_of body value_start \<le> length body"
proof -
  assume h: "value_start < value_end_of body value_start"
  then have l: "value_start < length body"
    by (auto simp: value_end_of_def split: if_splits)
  show ?thesis
  proof (cases "body ! value_start = CHR ''{''")
    case True
    then obtain e where e: "brace_end (drop value_start body) 0 value_start = Some e"
      and v: "value_end_of body value_start = e"
      using h l by (auto simp: value_end_of_def split: option.splits)
    from brace_end_bound [OF e] l v show ?thesis by simp
  next
    case False
    then obtain n where n: "find_from [CHR 0x22] (drop (value_start + 1) body) = Some n"
      and v: "value_end_of body value_start = value_start + 1 + n + 1"
      using h l by (auto simp: value_end_of_def split: option.splits if_splits)
    from find_from_bound [OF n] l v show ?thesis by simp
  qed
qed

lemma scan_step_bound:
  "scan_step body (pos, e) = Some (pos', e') \<Longrightarrow> pos < length body \<and> pos' \<le> length body"
  by (auto simp: scan_step_def Let_def value_end_of_bound split: if_splits option.splits)

lemma scan_loop_parse_fields:
  "length body - pos < n \<Longrightarrow> scan_loop n body pos e = Some (parse_fields body pos e)"
proof (induction body pos e arbitrary: n rule: parse_fields.induct)
  case (1 body pos e)
  from "1.prems" obtain m where n: "n = Suc m" by (cases n) auto
  show ?case
  proof (cases "scan_step body (pos, e)")
    case None
    then show ?thesis
      by (simp add: n parse_fields.simps [of body pos e])
  next
    case (Some st)
    obtain pos' e' where st: "st = (pos', e')" by (cases st)
    have "pos < pos'" using Some st scan_step_progress by blast
    moreover have "pos < length body" using Some st scan_step_bound by blast
    ultimately have "length body - pos' < m" using "1.prems" n by linarith
    then have "scan_loop m body pos' e' = Some (parse_fields body pos' e')"
      using "1.IH" Some st by blast
    then show ?thesis
      using Some st by (simp add: n parse_fields.simps [of body pos e])
  qed
qed

text \<open>
  Claim C9: the field scan terminates on every record body. An iteration that extracts a
  value moves the scan position to the end of the value, which lies after the old
  position and within the body; an iteration whose extraction fails moves it by exactly
  one character; so each iteration that does not leave the loop increases the position,
  and the loop is left within \<open>length body - pos + 1\<close> iterations, with the result of
  \<open>parse_fields\<close>.
\<close>

theorem field_scan_terminates:
  "(\<forall>pos' e'. scan_step body (pos, e) = Some (pos', e') \<longrightarrow>
       pos < pos' \<and> pos' \<le> length body)
   \<and> (\<forall>name match_end.
        pos < length body \<and> search_assign (drop pos body) = Some (name, match_end) \<longrightarrow>
        (if pos + match_end < value_end_of body (pos + match_end)
         then \<exists>v. scan_step body (pos, e)
                = Some (value_end_of body (pos + match_end), e(lower name \<mapsto> v))
         else scan_step body (pos, e) = Some (pos + 1, e)))
   \<and> scan_loop (Suc (length body - pos)) body pos e = Some (parse_fields body pos e)"
proof (intro conjI allI impI)
  fix pos' e'
  assume "scan_step body (pos, e) = Some (pos', e')"
  then show "pos < pos'" and "pos' \<le> length body"
    using scan_step_progress scan_step_bound by blast+
next
  fix name match_end
  assume "pos < length body \<and> search_assign (drop pos body) = Some (name, match_end)"
  then show "if pos + match_end < value_end_of body (pos + match_end)
         then \<exists>v. scan_step body (pos, e)
                = Some (value_end_of body (pos + match_end), e(lower name \<mapsto> v))
         else scan_step body (pos, e) = Some (pos + 1, e)"
    by (auto simp: scan_step_def Let_def)
next
  show "scan_loop (Suc (length body - pos)) body pos e = Some (parse_fields body pos e)"
    by (rule scan_loop_parse_fields) simp
qed

definition malformed_body :: string where
  \<open>malformed_body = '' title = bare, year = {2020}, note = "unclosed''\<close>

lemma malformed_body_steps:
  "(case scan_step malformed_body (0, Map.empty) of
      Some (pos', e') \<Rightarrow> pos' = 1 \<and> e' ''title'' = None
    | None \<Rightarrow> False)
   \<and> (case scan_step malformed_body (7, Map.empty) of
        Some (pos', e') \<Rightarrow> pos' = 28 \<and> e' ''year'' = Some ''2020''
      | None \<Rightarrow> False)
   \<and> parse_fields malformed_body 0 Map.empty ''year'' = Some ''2020''
   \<and> parse_fields malformed_body 0 Map.empty ''title'' = None
   \<and> parse_fields malformed_body 0 Map.empty ''note'' = None"
  unfolding malformed_body_def by code_simp

theorem field_scan_terminates_witness:
  "(\<exists>pos' e'. scan_step malformed_body (0, Map.empty) = Some (pos', e')
      \<and> pos' = 1 \<and> 0 < pos' \<and> pos' \<le> length malformed_body)
   \<and> (\<exists>r. scan_loop (Suc (length malformed_body - 0)) malformed_body 0 Map.empty = Some r
          \<and> r ''year'' = Some ''2020'' \<and> r ''title'' = None)"
proof -
  from malformed_body_steps obtain pos' e' where
    s: "scan_step malformed_body (0, Map.empty) = Some (pos', e')" and p: "pos' = 1"
    by (auto split: option.splits)
  from field_scan_terminates [of malformed_body 0 Map.empty] s
  have b: "0 < pos' \<and> pos' \<le> length malformed_body"
    and l: "scan_loop (Suc (length malformed_body - 0)) malformed_body 0 Map.empty
        = Some (parse_fields malformed_body 0 Map.empty)"
    by blast+
  have y: "parse_fields malformed_body 0 Map.empty ''year'' = Some ''2020''"
    and t: "parse_fields malformed_body 0 Map.empty ''title'' = None"
    using malformed_body_steps by blast+
  show ?thesis
    using s p b l y t by blast
qed


section \<open>Fields named like the slots of the record\<close>






















section \<open>Regenerating the index\<close>




















end
